theory Spec2Isabelle
  imports Main
begin

section \<open>Data model of app.py\<close>

text \<open>
  The orchestrator keeps two process-wide dictionaries, \<open>multi_clients\<close> (identifier to
  client object) and \<open>work_loads\<close> (identifier to load counter), and talks to collaborators
  that are not part of app.py: the pyrogram \<open>Client\<close> (\<open>start\<close>, \<open>stop\<close>), the notification
  helpers \<open>send_info\<close> and \<open>send_error\<close>, and \<open>close_connections\<close>. A Python dictionary keeps
  insertion order and \<open>stop_clients\<close> iterates over one, so a dictionary is an association
  list with one entry per key. Every call to a collaborator and every log line is appended
  to a trace; what a collaborator answers is read from an environment, which may look at
  the trace so far.
\<close>

type_synonym client_id = int

text \<open>Exceptions (instances of Python's \<open>Exception\<close>). \<open>Failure\<close> is one raised by a collaborator.\<close>

datatype exn =
    RuntimeError string
  | TypeError string
  | KeyError string
  | Failure string

text \<open>Client objects: \<open>bot\<close> is \<open>Client(name="bot", ...)\<close>, a secondary is \<open>Client(name=str(client_id), ...)\<close>.\<close>

datatype handle = Bot | Secondary client_id

text \<open>One entry of \<open>CLIENTS_CONFIG\<close>: a dictionary read at the keys API_ID, API_HASH, BOT_TOKEN.\<close>

type_synonym conf = "(string \<times> string) list"

type_synonym config = "(client_id \<times> conf) list"

text \<open>
  What a signal handler is called with: the interpreter passes the signal number and the
  current stack frame.
\<close>

datatype pyarg = Signum int | Frame

text \<open>Log lines, by the format string that produces them.\<close>

datatype message =
    Starting client_id
  | FailedToStart client_id exn
  | DefaultClientInitialized
  | NoAdditionalClientsFound
  | MultiClientMode nat
  | NoAdditionalClientsInitialized
  | BotStarted
  | StartingCacheManager
  | InitializingWebServer
  | BackendStarted
  | CacheManagerCrashed "exn option"
  | StoppingAllClients
  | ClientStopped client_id
  | ErrorStoppingClient client_id exn
  | SignalReceived pyarg
  | Traceback exn

text \<open>The texts handed to \<open>send_info\<close> and \<open>send_error\<close>.\<close>

datatype notice =
    NoticeBotStarted
  | NoticeStopping
  | NoticeSignal pyarg
  | NoticeCacheCrashed
  | NoticeErrorStopping client_id

text \<open>Coroutines handed to \<open>create_task\<close>.\<close>

datatype task = StartClient client_id | CacheUpdater | Serve | Shutdown pyarg

datatype event =
    LogInfo message
  | LogError message
  | CreateTask task
  | StartSettled handle "exn option"
  | StopBegin handle
  | StopSettled handle "exn option"
  | SendInfo notice
  | SendError notice "exn option"
  | CloseConnections
  | LoopStop

record state =
  multi_clients :: "(client_id \<times> handle) list"
  work_loads :: "(client_id \<times> int) list"
  trace :: "event list"

text \<open>
  The collaborators. \<open>None\<close> is a call that returns, \<open>Some e\<close> one that raises \<open>e\<close>; every
  call settles one way or the other.
  \<open>finish_rank\<close> orders the concurrent start tasks by the moment they finish.
  \<open>pending_signals\<close> are the numbers of the signals that have arrived and wait to be
  handled when the main thread enters \<open>run_until_complete\<close>.
\<close>

record env =
  start_result :: "event list \<Rightarrow> handle \<Rightarrow> string \<times> string \<times> string \<Rightarrow> exn option"
  stop_result :: "event list \<Rightarrow> handle \<Rightarrow> exn option"
  send_info_result :: "event list \<Rightarrow> notice \<Rightarrow> exn option"
  send_error_result :: "event list \<Rightarrow> notice \<Rightarrow> exn option \<Rightarrow> exn option"
  idle_result :: "event list \<Rightarrow> exn option"
  close_result :: "event list \<Rightarrow> exn option"
  finish_rank :: "client_id \<Rightarrow> nat"
  pending_signals :: "event list \<Rightarrow> int list"

subsection \<open>Dictionaries\<close>

text \<open>\<open>d[k] = v\<close>: an existing key keeps its place, a new key goes last.\<close>

fun dict_set :: "'k \<Rightarrow> 'v \<Rightarrow> ('k \<times> 'v) list \<Rightarrow> ('k \<times> 'v) list" where
  "dict_set k v [] = [(k, v)]"
| "dict_set k v ((k', v') # d) = (if k' = k then (k', v) # d else (k', v') # dict_set k v d)"

text \<open>\<open>d.update(other)\<close>.\<close>

fun dict_update :: "('k \<times> 'v) list \<Rightarrow> ('k \<times> 'v) list \<Rightarrow> ('k \<times> 'v) list" where
  "dict_update [] d = d"
| "dict_update ((k, v) # other) d = dict_update other (dict_set k v d)"

definition keys :: "('k \<times> 'v) list \<Rightarrow> 'k set" where
  "keys d = fst ` set d"

subsection \<open>Logging and the trace\<close>

definition emit :: "event \<Rightarrow> state \<Rightarrow> state" where
  "emit e s = s\<lparr>trace := trace s @ [e]\<rparr>"

definition log_info :: "message \<Rightarrow> state \<Rightarrow> state" where
  "log_info m s = emit (LogInfo m) s"

definition log_error :: "message \<Rightarrow> state \<Rightarrow> state" where
  "log_error m s = emit (LogError m) s"

text \<open>Sequencing: an exception skips the rest.\<close>

definition seq ::
  "(exn + 'a) \<times> state \<Rightarrow> ('a \<Rightarrow> state \<Rightarrow> (exn + 'b) \<times> state) \<Rightarrow> (exn + 'b) \<times> state" where
  "seq r f = (case r of (Inl e, s) \<Rightarrow> (Inl e, s) | (Inr x, s) \<Rightarrow> f x s)"

text \<open>The events a run appends to the trace it started from.\<close>

definition new_events :: "state \<Rightarrow> state \<Rightarrow> event list" where
  "new_events s s' = drop (length (trace s)) (trace s')"

section \<open>start_client\<close>

text \<open>
  The keyword arguments of \<open>Client(...)\<close> are evaluated in the order written; a missing key
  raises \<open>KeyError\<close>.
\<close>

definition client_args :: "conf \<Rightarrow> exn + string \<times> string \<times> string" where
  "client_args client_conf =
     (case map_of client_conf ''API_ID'' of
        None \<Rightarrow> Inl (KeyError ''API_ID'')
      | Some api_id \<Rightarrow>
          (case map_of client_conf ''API_HASH'' of
             None \<Rightarrow> Inl (KeyError ''API_HASH'')
           | Some api_hash \<Rightarrow>
               (case map_of client_conf ''BOT_TOKEN'' of
                  None \<Rightarrow> Inl (KeyError ''BOT_TOKEN'')
                | Some bot_token \<Rightarrow> Inr (api_id, api_hash, bot_token))))"

text \<open>\<open>await client.start()\<close>: the call returns the client itself or raises.\<close>

definition client_start ::
  "env \<Rightarrow> handle \<Rightarrow> string \<times> string \<times> string \<Rightarrow> state \<Rightarrow> (exn + handle) \<times> state" where
  "client_start env h args s =
     (case start_result env (trace s) h args of
        Some e \<Rightarrow> (Inl e, emit (StartSettled h (Some e)) s)
      | None \<Rightarrow> (Inr h, emit (StartSettled h None) s))"

text \<open>The body of the \<open>try\<close> block of \<open>start_client\<close> (lines 67 to 78).\<close>

definition start_client_try ::
  "env \<Rightarrow> client_id \<Rightarrow> conf \<Rightarrow> state \<Rightarrow> (exn + (client_id \<times> handle) option) \<times> state" where
  "start_client_try env client_id client_conf s =
     (let s1 = log_info (Starting client_id) s in
      case client_args client_conf of
        Inl e \<Rightarrow> (Inl e, s1)
      | Inr args \<Rightarrow>
          (case client_start env (Secondary client_id) args s1 of
             (Inl e, s2) \<Rightarrow> (Inl e, s2)
           | (Inr client, s2) \<Rightarrow>
               (Inr (Some (client_id, client)),
                s2\<lparr>work_loads := dict_set client_id 0 (work_loads s2)\<rparr>)))"

text \<open>\<open>start_client\<close>: the \<open>try\<close> block with its \<open>except Exception\<close> handler (lines 79 to 81).\<close>

definition start_client ::
  "env \<Rightarrow> client_id \<Rightarrow> conf \<Rightarrow> state \<Rightarrow> (exn + (client_id \<times> handle) option) \<times> state" where
  "start_client env client_id client_conf s =
     (case start_client_try env client_id client_conf s of
        (Inl e, s') \<Rightarrow> (Inr None, log_error (FailedToStart client_id e) s')
      | (Inr r, s') \<Rightarrow> (Inr r, s'))"

section \<open>initialize_clients\<close>

text \<open>\<open>create_task(coro)\<close> only schedules the coroutine: nothing of it runs before the caller awaits.\<close>

definition create_task :: "task \<Rightarrow> state \<Rightarrow> state" where
  "create_task t s = emit (CreateTask t) s"

text \<open>The list comprehension of line 100: one task per entry, in the dictionary's order.\<close>

fun spawn_all :: "(client_id \<times> conf) list \<Rightarrow> state \<Rightarrow> state" where
  "spawn_all [] s = s"
| "spawn_all ((i, conf) # rest) s = spawn_all rest (create_task (StartClient i) s)"

text \<open>
  The scheduled tasks run while the caller waits in \<open>gather\<close>. A task's steps are recorded
  when it finishes, and the tasks finish in the order of \<open>finish_rank\<close>. \<open>gather\<close> (with
  \<open>return_exceptions\<close> left False) hands the first exception a task raises to its caller at
  once; otherwise it returns the results in the order of its arguments.
\<close>

fun run_tasks ::
  "env \<Rightarrow> (client_id \<times> conf) list \<Rightarrow> state \<Rightarrow>
     (exn + (client_id \<times> (client_id \<times> handle) option) list) \<times> state" where
  "run_tasks env [] s = (Inr [], s)"
| "run_tasks env ((i, conf) # rest) s =
     (case start_client env i conf s of
        (Inl e, s') \<Rightarrow> (Inl e, s')
      | (Inr r, s') \<Rightarrow>
          (case run_tasks env rest s' of
             (Inl e, s'') \<Rightarrow> (Inl e, s'')
           | (Inr rs, s'') \<Rightarrow> (Inr ((i, r) # rs), s'')))"

definition result_of ::
  "(client_id \<times> (client_id \<times> handle) option) list \<Rightarrow> client_id \<Rightarrow> (client_id \<times> handle) option" where
  "result_of finished i = (case map_of finished i of Some r \<Rightarrow> r | None \<Rightarrow> None)"

definition gather ::
  "env \<Rightarrow> (client_id \<times> conf) list \<Rightarrow> state \<Rightarrow> (exn + (client_id \<times> handle) option list) \<times> state" where
  "gather env tasks s =
     (case run_tasks env (sort_key (\<lambda>(i, conf). finish_rank env i) tasks) s of
        (Inl e, s') \<Rightarrow> (Inl e, s')
      | (Inr finished, s') \<Rightarrow> (Inr (map (\<lambda>(i, conf). result_of finished i) tasks), s'))"

text \<open>A \<open>Client\<close> object defines neither \<open>__bool__\<close> nor \<open>__len__\<close>, so \<open>if client\<close> holds.\<close>

definition truthy :: "handle \<Rightarrow> bool" where
  "truthy client = True"

text \<open>
  The dictionary comprehension of line 103,
  \<open>{client_id: client for client_id, client in clients if client}\<close>:
  each element is unpacked into \<open>client_id, client\<close> before \<open>if client\<close> is evaluated, and
  unpacking \<open>None\<close> raises \<open>TypeError\<close>.
\<close>

fun collect_clients ::
  "(client_id \<times> handle) option list \<Rightarrow> (client_id \<times> handle) list \<Rightarrow> exn + (client_id \<times> handle) list" where
  "collect_clients [] acc = Inr acc"
| "collect_clients (None # rest) acc = Inl (TypeError ''cannot unpack non-iterable NoneType object'')"
| "collect_clients (Some (client_id, client) # rest) acc =
     (if truthy client then collect_clients rest (dict_set client_id client acc)
      else collect_clients rest acc)"

text \<open>The comprehension of line 95: a new dictionary of the entries with \<open>cid != 0\<close>.\<close>

definition additional_clients_conf :: "config \<Rightarrow> (client_id \<times> conf) list" where
  "additional_clients_conf CLIENTS_CONFIG =
     dict_update (filter (\<lambda>(cid, conf). cid \<noteq> 0) CLIENTS_CONFIG) []"

text \<open>
  \<open>initialize_clients\<close>. The statements of its first \<open>try\<close> block (two dictionary
  assignments and a log call) do not raise, so its handler is not modelled.
\<close>

definition initialize_clients :: "env \<Rightarrow> config \<Rightarrow> state \<Rightarrow> (exn + unit) \<times> state" where
  "initialize_clients env CLIENTS_CONFIG s =
     (let s1 = log_info DefaultClientInitialized
                 (s\<lparr>multi_clients := dict_set 0 Bot (multi_clients s),
                    work_loads := dict_set 0 0 (work_loads s)\<rparr>);
          additional = additional_clients_conf CLIENTS_CONFIG
      in if additional = [] then (Inr (), log_info NoAdditionalClientsFound s1)
         else
           (case gather env additional (spawn_all additional s1) of
              (Inl e, s3) \<Rightarrow> (Inl e, s3)
            | (Inr clients, s3) \<Rightarrow>
                (case collect_clients clients [] of
                   Inl e \<Rightarrow> (Inl e, s3)
                 | Inr clients' \<Rightarrow>
                     (let s4 = s3\<lparr>multi_clients := dict_update clients' (multi_clients s3)\<rparr>
                      in if length (multi_clients s4) > 1
                         then (Inr (), log_info (MultiClientMode (length (multi_clients s4))) s4)
                         else (Inr (), log_info NoAdditionalClientsInitialized s4)))))"

section \<open>stop_clients\<close>

definition send_info :: "env \<Rightarrow> notice \<Rightarrow> state \<Rightarrow> (exn + unit) \<times> state" where
  "send_info env n s =
     (case send_info_result env (trace s) n of
        Some e \<Rightarrow> (Inl e, emit (SendInfo n) s)
      | None \<Rightarrow> (Inr (), emit (SendInfo n) s))"

definition send_error :: "env \<Rightarrow> notice \<Rightarrow> exn option \<Rightarrow> state \<Rightarrow> (exn + unit) \<times> state" where
  "send_error env n cause s =
     (case send_error_result env (trace s) n cause of
        Some e \<Rightarrow> (Inl e, emit (SendError n cause) s)
      | None \<Rightarrow> (Inr (), emit (SendError n cause) s))"

text \<open>\<open>shutdowndb\<close> calls \<open>close_connections()\<close>.\<close>

definition shutdowndb :: "env \<Rightarrow> state \<Rightarrow> (exn + unit) \<times> state" where
  "shutdowndb env s =
     (case close_result env (trace s) of
        Some e \<Rightarrow> (Inl e, emit CloseConnections s)
      | None \<Rightarrow> (Inr (), emit CloseConnections s))"

text \<open>\<open>await client.stop()\<close>: the caller goes on only when the call has settled.\<close>

definition client_stop :: "env \<Rightarrow> handle \<Rightarrow> state \<Rightarrow> (exn + unit) \<times> state" where
  "client_stop env h s =
     (let s1 = emit (StopBegin h) s in
      case stop_result env (trace s1) h of
        Some e \<Rightarrow> (Inl e, emit (StopSettled h (Some e)) s1)
      | None \<Rightarrow> (Inr (), emit (StopSettled h None) s1))"

text \<open>
  The \<open>for\<close> loop of lines 150 to 157 over \<open>multi_clients.items()\<close>. The \<open>await send_error\<close>
  stands in the \<open>except\<close> handler, outside the \<open>try\<close>: what it raises leaves the loop.
\<close>

fun stop_loop :: "env \<Rightarrow> (client_id \<times> handle) list \<Rightarrow> state \<Rightarrow> (exn + unit) \<times> state" where
  "stop_loop env [] s = (Inr (), s)"
| "stop_loop env ((client_id, client) # rest) s =
     (if client_id \<noteq> 0 then
        (case client_stop env client s of
           (Inr u, s1) \<Rightarrow> stop_loop env rest (log_info (ClientStopped client_id) s1)
         | (Inl e, s1) \<Rightarrow>
             seq (send_error env (NoticeErrorStopping client_id) (Some e)
                    (log_error (ErrorStoppingClient client_id e) s1))
               (\<lambda>u. stop_loop env rest))
      else stop_loop env rest s)"

definition stop_clients :: "env \<Rightarrow> state \<Rightarrow> (exn + unit) \<times> state" where
  "stop_clients env s =
     seq (send_info env NoticeStopping (log_info StoppingAllClients s)) (\<lambda>u s1.
     seq (shutdowndb env s1) (\<lambda>u s2.
     seq (client_stop env Bot s2) (\<lambda>u s3.
     stop_loop env (multi_clients s3) s3)))"

section \<open>The supervised cache task\<close>

text \<open>
  \<open>handle_cache_crash\<close> is declared \<open>async def\<close>: this is what its body does once the
  coroutine runs. \<open>task.exception()\<close> is \<open>None\<close> for a task that ended normally.
\<close>

definition handle_cache_crash :: "env \<Rightarrow> exn option \<Rightarrow> state \<Rightarrow> (exn + unit) \<times> state" where
  "handle_cache_crash env exception s =
     send_error env NoticeCacheCrashed exception (log_error (CacheManagerCrashed exception) s)"

text \<open>A coroutine object: the call of an \<open>async def\<close> function, which runs nothing yet.\<close>

datatype coroutine = HandleCacheCrashCall "exn option"

text \<open>
  The callback of lines 122 to 128, \<open>lambda t: (handle_cache_crash(t) if t.exception() else None)\<close>:
  an exception object is true, so for a failed task the value is the coroutine object of
  the call, which is neither awaited nor given to \<open>create_task\<close>.
\<close>

definition done_callback :: "exn option \<Rightarrow> coroutine option" where
  "done_callback t = (if t \<noteq> None then Some (HandleCacheCrashCall t) else None)"

text \<open>
  The event loop calls a done callback and drops what it returns. Only awaiting a
  coroutine object or scheduling it runs its body; one that is dropped never runs.
\<close>

definition run_done_callback :: "exn option \<Rightarrow> state \<Rightarrow> state" where
  "run_done_callback t s = (case done_callback t of None \<Rightarrow> s | Some dropped \<Rightarrow> s)"

section \<open>Startup and shutdown\<close>

text \<open>
  Lines 48 to 61, run when the module is loaded: \<open>not bot_conf\<close> holds for a missing entry
  and for an empty one; then the arguments of the primary \<open>Client\<close> are read.
\<close>

definition bot_conf :: "config \<Rightarrow> exn + string \<times> string \<times> string" where
  "bot_conf CLIENTS_CONFIG =
     (case map_of CLIENTS_CONFIG 0 of
        None \<Rightarrow> Inl (RuntimeError ''CLIENTS_CONFIG must contain a configuration for client_id 0'')
      | Some c \<Rightarrow>
          (if c = [] then Inl (RuntimeError ''CLIENTS_CONFIG must contain a configuration for client_id 0'')
           else client_args c))"

text \<open>\<open>await idle()\<close> ends when the library decides; the model asks the environment how.\<close>

definition idle :: "env \<Rightarrow> state \<Rightarrow> (exn + unit) \<times> state" where
  "idle env s = (case idle_result env (trace s) of Some e \<Rightarrow> (Inl e, s) | None \<Rightarrow> (Inr (), s))"

definition init :: "env \<Rightarrow> config \<Rightarrow> string \<times> string \<times> string \<Rightarrow> state \<Rightarrow> (exn + unit) \<times> state" where
  "init env CLIENTS_CONFIG bot_args s =
     seq (client_start env Bot bot_args s) (\<lambda>started s1.
     seq (initialize_clients env CLIENTS_CONFIG (log_info BotStarted s1)) (\<lambda>u s2.
     seq (send_info env NoticeBotStarted
            (log_info BackendStarted
              (create_task Serve
                (log_info InitializingWebServer
                  (create_task CacheUpdater
                    (log_info StartingCacheManager s2)))))) (\<lambda>u s3.
     idle env s3)))"

text \<open>
  The body of \<open>signal_handler(sig)\<close>, lines 161 to 168, for the value bound to \<open>sig\<close>, and
  the coroutine \<open>shutdown\<close> whose task it creates.
\<close>

definition signal_handler :: "pyarg \<Rightarrow> state \<Rightarrow> state" where
  "signal_handler sig s = create_task (Shutdown sig) (log_info (SignalReceived sig) s)"

definition shutdown :: "env \<Rightarrow> pyarg \<Rightarrow> state \<Rightarrow> (exn + unit) \<times> state" where
  "shutdown env sig s =
     seq (send_info env (NoticeSignal sig) s) (\<lambda>u s1.
     seq (stop_clients env s1) (\<lambda>u s2.
     (Inr (), emit LoopStop s2)))"

text \<open>Decimal digits of a number, for the text of an exception.\<close>

fun digits :: "nat \<Rightarrow> string" where
  "digits n =
     (if n < 10 then [char_of (48 + n)] else digits (n div 10) @ [char_of (48 + n mod 10)])"

text \<open>
  A call of \<open>signal_handler\<close> with the positional arguments \<open>args\<close>. \<open>def signal_handler(sig)\<close>
  has one parameter: one argument is bound to \<open>sig\<close> and the body runs; any other number
  of arguments raises \<open>TypeError\<close> before the first line of the body.
\<close>

definition call_signal_handler :: "pyarg list \<Rightarrow> state \<Rightarrow> (exn + unit) \<times> state" where
  "call_signal_handler args s =
     (case args of
        [] \<Rightarrow>
          (Inl (TypeError (''signal_handler() missing 1 required positional argument: '' @
                           [CHR 0x27] @ ''sig'' @ [CHR 0x27])), s)
      | [sig] \<Rightarrow> (Inr (), signal_handler sig s)
      | sig # others \<Rightarrow>
          (Inl (TypeError (''signal_handler() takes 1 positional argument but '' @
                           digits (length args) @ '' were given'')), s))"

text \<open>
  Lines 173 and 174 register \<open>signal_handler\<close> with \<open>signal.signal\<close>. When a signal is
  delivered the interpreter calls the registered handler, in the main thread, with the
  signal number and the frame.
\<close>

definition deliver_signal :: "int \<Rightarrow> state \<Rightarrow> (exn + unit) \<times> state" where
  "deliver_signal signum s = call_signal_handler [Signum signum, Frame] s"

text \<open>
  The pending signals are delivered one after the other; what a handler raises is raised
  in the main thread at that point, and the signals behind it stay pending.
\<close>

fun deliver_all :: "int list \<Rightarrow> state \<Rightarrow> (exn + unit) \<times> state" where
  "deliver_all [] s = (Inr (), s)"
| "deliver_all (signum # rest) s = seq (deliver_signal signum s) (\<lambda>u. deliver_all rest)"

text \<open>
  \<open>loop.run_until_complete(coro)\<close>: the main thread handles the signals that are pending
  when it enters, and an exception of a handler leaves \<open>run_until_complete\<close> before the
  coroutine has made a step. Signals that arrive later, while the coroutine waits, are
  not modelled.
\<close>

definition run_until_complete ::
  "env \<Rightarrow> (state \<Rightarrow> (exn + unit) \<times> state) \<Rightarrow> state \<Rightarrow> (exn + unit) \<times> state" where
  "run_until_complete env coro s =
     seq (deliver_all (pending_signals env (trace s)) s) (\<lambda>u. coro)"

text \<open>The \<open>finally\<close> block of lines 181 to 183.\<close>

definition cleanup :: "env \<Rightarrow> state \<Rightarrow> (exn + unit) \<times> state" where
  "cleanup env s =
     seq (run_until_complete env (stop_clients env) s) (\<lambda>u s1. (Inr (), emit LoopStop s1))"

text \<open>
  The \<open>except\<close> and \<open>finally\<close> clauses of the \<open>__main__\<close> block, applied to the way its \<open>try\<close>
  block ended: \<open>except Exception\<close> logs the traceback, and \<open>finally\<close> runs in either case.
\<close>

definition except_finally :: "env \<Rightarrow> (exn + unit) \<times> state \<Rightarrow> (exn + unit) \<times> state" where
  "except_finally env tried =
     (case tried of
        (Inl e, s1) \<Rightarrow> cleanup env (log_error (Traceback e) s1)
      | (Inr u, s1) \<Rightarrow> cleanup env s1)"

text \<open>
  The \<open>__main__\<close> block: the handlers are registered, then \<open>loop.run_until_complete(init())\<close>
  runs inside the \<open>try\<close>. \<open>KeyboardInterrupt\<close> is no \<open>Exception\<close> and is left out.
\<close>

definition main :: "env \<Rightarrow> config \<Rightarrow> string \<times> string \<times> string \<Rightarrow> state \<Rightarrow> (exn + unit) \<times> state" where
  "main env CLIENTS_CONFIG bot_args s =
     except_finally env (run_until_complete env (init env CLIENTS_CONFIG bot_args) s)"

text \<open>The whole script: the module level, then the \<open>__main__\<close> block.\<close>

definition app :: "env \<Rightarrow> config \<Rightarrow> state \<Rightarrow> (exn + unit) \<times> state" where
  "app env CLIENTS_CONFIG s =
     (case bot_conf CLIENTS_CONFIG of
        Inl e \<Rightarrow> (Inl e, s)
      | Inr bot_args \<Rightarrow> main env CLIENTS_CONFIG bot_args s)"

section \<open>Reading a trace\<close>

text \<open>The client a stop event belongs to, and whether the event opens a stop.\<close>

fun stop_of :: "event \<Rightarrow> handle option" where
  "stop_of (StopBegin h) = Some h"
| "stop_of (StopSettled h r) = Some h"
| "stop_of e = None"

fun stop_begin :: "event \<Rightarrow> bool" where
  "stop_begin (StopBegin h) = True"
| "stop_begin e = False"

definition stop_event :: "event \<Rightarrow> bool" where
  "stop_event e = (stop_of e \<noteq> None)"

text \<open>The begin and the settling of one stop, next to each other.\<close>

fun stop_pair :: "handle \<times> exn option \<Rightarrow> event list" where
  "stop_pair (h, r) = [StopBegin h, StopSettled h r]"

text \<open>The clients the loop of \<open>stop_clients\<close> stops: the pool's entries with \<open>client_id != 0\<close>.\<close>

definition secondaries :: "(client_id \<times> handle) list \<Rightarrow> handle list" where
  "secondaries pool = map snd (filter (\<lambda>(client_id, client). client_id \<noteq> 0) pool)"

text \<open>
  Fan-out of the secondary stops: every one of them is begun before the first of them
  has settled.
\<close>

definition fanned_out :: "event list \<Rightarrow> bool" where
  "fanned_out evs =
     list_all (\<lambda>e. \<not> stop_begin e)
       (dropWhile stop_begin (filter (\<lambda>e. stop_of e \<noteq> None \<and> stop_of e \<noteq> Some Bot) evs))"

text \<open>
  Events of the secondary starts: the scheduling of a start task, what a running start
  task records, and the event with which the start task of client \<open>i\<close> reaches its outcome
  (the start that succeeded, or the logged failure).
\<close>

fun spawn_event :: "event \<Rightarrow> bool" where
  "spawn_event (CreateTask (StartClient i)) = True"
| "spawn_event e = False"

fun task_event :: "event \<Rightarrow> bool" where
  "task_event (LogInfo (Starting i)) = True"
| "task_event (StartSettled (Secondary i) r) = True"
| "task_event (LogError (FailedToStart i e)) = True"
| "task_event e = False"

fun settles :: "client_id \<Rightarrow> event \<Rightarrow> bool" where
  "settles i (StartSettled (Secondary j) None) = (i = j)"
| "settles i (LogError (FailedToStart j e)) = (i = j)"
| "settles i e = False"

definition settled :: "client_id \<Rightarrow> event list \<Rightarrow> bool" where
  "settled i evs = list_ex (settles i) evs"

text \<open>How often the shutdown sequence was entered: \<open>stop_clients\<close> logs this line first.\<close>

definition sequence_runs :: "event list \<Rightarrow> nat" where
  "sequence_runs evs = count_list evs (LogInfo StoppingAllClients)"

section \<open>Concrete runs\<close>

text \<open>Collaborators that never fail, and a fresh process.\<close>

definition all_succeed :: env where
  "all_succeed =
     \<lparr>start_result = (\<lambda>tr h args. None), stop_result = (\<lambda>tr h. None),
      send_info_result = (\<lambda>tr n. None), send_error_result = (\<lambda>tr n cause. None),
      idle_result = (\<lambda>tr. None), close_result = (\<lambda>tr. None), finish_rank = (\<lambda>i. 0),
      pending_signals = (\<lambda>tr. [])\<rparr>"

text \<open>The start of client 2 is refused.\<close>

definition second_fails :: env where
  "second_fails =
     all_succeed\<lparr>start_result :=
       (\<lambda>tr h args. if h = Secondary 2 then Some (Failure ''invalid token'') else None)\<rparr>"

definition valid :: conf where
  "valid = [(''API_ID'', ''1''), (''API_HASH'', ''h''), (''BOT_TOKEN'', ''t'')]"

definition fresh :: state where
  "fresh = \<lparr>multi_clients = [], work_loads = [], trace = []\<rparr>"

text \<open>The start of client 2 is refused, and client 2 is the first to finish.\<close>

definition second_fails_first :: env where
  "second_fails_first = second_fails\<lparr>finish_rank := (\<lambda>i. if i = 2 then 0 else 1)\<rparr>"

text \<open>
  Two signals in quick succession right after the handlers are registered: SIGTERM (15)
  is pending when the \<open>try\<close> block enters \<open>run_until_complete\<close>, SIGINT (2) when the \<open>finally\<close>
  block does.
\<close>

definition two_signals :: env where
  "two_signals = all_succeed\<lparr>pending_signals := (\<lambda>tr. if tr = [] then [15] else [2])\<rparr>"

text \<open>One signal: SIGTERM is pending when the \<open>try\<close> block enters \<open>run_until_complete\<close>.\<close>

definition one_signal :: env where
  "one_signal = all_succeed\<lparr>pending_signals := (\<lambda>tr. if tr = [] then [15] else [])\<rparr>"

text \<open>The three clients of the spec's scenario, all with valid entries.\<close>

definition three_clients :: config where
  "three_clients = [(0, valid), (1, valid), (2, valid)]"

text \<open>A pool of three clients at work.\<close>

definition serving :: state where
  "serving = \<lparr>multi_clients = [(0, Bot), (1, Secondary 1), (2, Secondary 2)],
              work_loads = [(0, 4), (1, 0), (2, 7)], trace = []\<rparr>"

text \<open>The stop of the primary client raises.\<close>

definition primary_stop_fails :: env where
  "primary_stop_fails =
     all_succeed\<lparr>stop_result := (\<lambda>tr h. if h = Bot then Some (Failure ''not connected'') else None)\<rparr>"

section \<open>Dictionary facts\<close>

lemma map_of_dict_set: "map_of (dict_set k v d) k' = (if k' = k then Some v else map_of d k')"
  by (induction d) auto

lemma map_fst_dict_set:
  "map fst (dict_set k v d) = (if k \<in> fst ` set d then map fst d else map fst d @ [k])"
  by (induction d) force+

lemma keys_dict_set: "keys (dict_set k v d) = insert k (keys d)"
  unfolding keys_def set_map [symmetric] map_fst_dict_set by auto

section \<open>Properties of start_client\<close>

text \<open>\<open>start_client\<close>, case by case on what the configuration entry and the library answer.\<close>

lemma start_client_cases:
  "start_client env i c s =
     (case client_args c of
        Inl e \<Rightarrow> (Inr None, log_error (FailedToStart i e) (log_info (Starting i) s))
      | Inr args \<Rightarrow>
          (case start_result env (trace s @ [LogInfo (Starting i)]) (Secondary i) args of
             Some e \<Rightarrow> (Inr None,
                log_error (FailedToStart i e)
                  (emit (StartSettled (Secondary i) (Some e)) (log_info (Starting i) s)))
           | None \<Rightarrow> (Inr (Some (i, Secondary i)),
                (emit (StartSettled (Secondary i) None) (log_info (Starting i) s))
                  \<lparr>work_loads := dict_set i 0 (work_loads s)\<rparr>)))"
  by (simp add: start_client_def start_client_try_def client_start_def log_info_def emit_def
      split: sum.splits option.splits)

text \<open>
  C5. \<open>start_client\<close> never raises: its result is always a returned value. When reading the
  configuration entry raises (a missing key) or the library's \<open>start\<close> raises, it logs the
  identifier with the cause and returns \<open>None\<close>; when the start succeeds it returns the pair
  of the identifier and the client.
\<close>

theorem start_client_never_raises:
  "(\<exists>r. fst (start_client env i c s) = Inr r) \<and>
   (\<forall>e. client_args c = Inl e \<longrightarrow>
      fst (start_client env i c s) = Inr None \<and>
      new_events s (snd (start_client env i c s)) =
        [LogInfo (Starting i), LogError (FailedToStart i e)]) \<and>
   (\<forall>args e. client_args c = Inr args \<and>
        start_result env (trace s @ [LogInfo (Starting i)]) (Secondary i) args = Some e \<longrightarrow>
      fst (start_client env i c s) = Inr None \<and>
      new_events s (snd (start_client env i c s)) =
        [LogInfo (Starting i), StartSettled (Secondary i) (Some e), LogError (FailedToStart i e)]) \<and>
   (\<forall>args. client_args c = Inr args \<and>
        start_result env (trace s @ [LogInfo (Starting i)]) (Secondary i) args = None \<longrightarrow>
      fst (start_client env i c s) = Inr (Some (i, Secondary i)))"
  by (simp add: start_client_cases new_events_def log_info_def log_error_def emit_def
      split: sum.splits option.splits)

theorem start_client_never_raises_witness:
  "fst (start_client second_fails 2 valid fresh) = Inr None \<and>
   new_events fresh (snd (start_client second_fails 2 valid fresh)) =
     [LogInfo (Starting 2), StartSettled (Secondary 2) (Some (Failure ''invalid token'')),
      LogError (FailedToStart 2 (Failure ''invalid token''))] \<and>
   fst (start_client second_fails 1 valid fresh) = Inr (Some (1, Secondary 1)) \<and>
   fst (start_client second_fails 1 [] fresh) = Inr None \<and>
   new_events fresh (snd (start_client second_fails 1 [] fresh)) =
     [LogInfo (Starting 1), LogError (FailedToStart 1 (KeyError ''API_ID''))]"
  using start_client_never_raises [of second_fails 2 valid fresh]
    start_client_never_raises [of second_fails 1 valid fresh]
    start_client_never_raises [of second_fails 1 "[]" fresh]
  by (simp add: second_fails_def all_succeed_def valid_def fresh_def client_args_def)

text \<open>
  C10. \<open>start_client\<close> writes the Workload Registry only at its own identifier and only
  when the start succeeds: it returns either \<open>None\<close>, and then \<open>work_loads\<close> is what it was,
  or its pair, and then \<open>work_loads\<close> is the old dictionary with this identifier set to 0;
  the entry of every other identifier is the same before and after in both cases.
\<close>

theorem start_client_frame:
  "(fst (start_client env i c s) = Inr None \<or>
      fst (start_client env i c s) = Inr (Some (i, Secondary i))) \<and>
   (fst (start_client env i c s) = Inr None \<longrightarrow>
      work_loads (snd (start_client env i c s)) = work_loads s) \<and>
   (fst (start_client env i c s) = Inr (Some (i, Secondary i)) \<longrightarrow>
      work_loads (snd (start_client env i c s)) = dict_set i 0 (work_loads s)) \<and>
   (\<forall>k. k \<noteq> i \<longrightarrow>
      map_of (work_loads (snd (start_client env i c s))) k = map_of (work_loads s) k)"
  by (simp add: start_client_cases map_of_dict_set log_info_def log_error_def emit_def
      split: sum.splits option.splits)

theorem start_client_frame_witness:
  "fst (start_client second_fails 2 valid serving) = Inr None \<and>
   work_loads (snd (start_client second_fails 2 valid serving)) = [(0, 4), (1, 0), (2, 7)] \<and>
   fst (start_client all_succeed 2 valid serving) = Inr (Some (2, Secondary 2)) \<and>
   work_loads (snd (start_client all_succeed 2 valid serving)) = [(0, 4), (1, 0), (2, 0)] \<and>
   map_of (work_loads (snd (start_client all_succeed 2 valid serving))) 0 = Some 4"
  using start_client_frame [of second_fails 2 valid serving]
    start_client_frame [of all_succeed 2 valid serving]
  by (simp add: second_fails_def all_succeed_def valid_def serving_def client_args_def
      start_client_cases log_info_def emit_def)

section \<open>Properties of startup\<close>

text \<open>
  C6. When \<open>CLIENTS_CONFIG\<close> has no entry for identifier 0 the script ends with the
  \<open>RuntimeError\<close> of line 50 and the state it started from: no client was started, nothing
  was logged or scheduled, and neither dictionary got an entry.
\<close>

theorem missing_primary_is_fatal:
  "map_of CLIENTS_CONFIG 0 = None \<Longrightarrow>
   app env CLIENTS_CONFIG s =
     (Inl (RuntimeError ''CLIENTS_CONFIG must contain a configuration for client_id 0''), s)"
  by (simp add: app_def bot_conf_def)

theorem missing_primary_is_fatal_witness:
  "map_of [(1, valid), (2, valid)] (0::int) = None \<and>
   app all_succeed [(1, valid), (2, valid)] fresh =
     (Inl (RuntimeError ''CLIENTS_CONFIG must contain a configuration for client_id 0''), fresh)"
  using missing_primary_is_fatal [of "[(1, valid), (2, valid)]" all_succeed fresh]
  by simp

text \<open>
  C1. The spec's scenario: identifiers 0, 1 and 2 are configured and the start of client 2
  fails. \<open>gather\<close> returns the pair of client 1 and \<open>None\<close>; the comprehension of line 103
  unpacks \<open>None\<close> and \<open>initialize_clients\<close> raises \<open>TypeError\<close>. The pool is left with
  identifier 0 alone, while the registry has the entries of 0 and 1.
\<close>

theorem initialize_clients_raises_on_failed_start:
  "initialize_clients second_fails [(0, valid), (1, valid), (2, valid)] fresh =
     (Inl (TypeError ''cannot unpack non-iterable NoneType object''),
      \<lparr>multi_clients = [(0, Bot)], work_loads = [(0, 0), (1, 0)],
       trace = [LogInfo DefaultClientInitialized, CreateTask (StartClient 1),
                CreateTask (StartClient 2), LogInfo (Starting 1),
                StartSettled (Secondary 1) None, LogInfo (Starting 2),
                StartSettled (Secondary 2) (Some (Failure ''invalid token'')),
                LogError (FailedToStart 2 (Failure ''invalid token''))]\<rparr>)"
  by code_simp

section \<open>Properties of shutdown\<close>

text \<open>
  C3. With three clients in the pool and a primary client whose \<open>stop\<close> raises,
  \<open>stop_clients\<close> raises that exception: \<open>await bot.stop()\<close> stands outside any \<open>try\<close>, the
  loop over the pool is never entered and no secondary client gets a stop attempt.
\<close>

theorem stop_clients_aborts_on_primary_failure:
  "stop_clients primary_stop_fails serving =
     (Inl (Failure ''not connected''),
      serving\<lparr>trace := [LogInfo StoppingAllClients, SendInfo NoticeStopping, CloseConnections,
                         StopBegin Bot, StopSettled Bot (Some (Failure ''not connected''))]\<rparr>)"
  by code_simp

section \<open>Properties of the task supervisor\<close>

text \<open>
  C4. For a cache task that failed with \<open>e\<close>, the done callback returns the coroutine
  object of \<open>handle_cache_crash(t)\<close>; the loop drops it, so the state and the trace are what
  they were: nothing is logged and no error notification is sent. The body of
  \<open>handle_cache_crash\<close>, had it run, would have logged the cause and made one call of
  \<open>send_error\<close>.
\<close>

theorem cache_crash_is_not_reported:
  "done_callback (Some e) = Some (HandleCacheCrashCall (Some e)) \<and>
   run_done_callback (Some e) s = s \<and>
   new_events s (run_done_callback (Some e) s) = [] \<and>
   new_events s (snd (handle_cache_crash env (Some e) s)) =
     [LogError (CacheManagerCrashed (Some e)), SendError NoticeCacheCrashed (Some e)]"
  by (simp add: done_callback_def run_done_callback_def new_events_def handle_cache_crash_def
      send_error_def log_error_def emit_def split: option.splits)

section \<open>The two dictionaries\<close>

lemma keys_Nil: "keys [] = {}"
  by (simp add: keys_def)

lemma keys_Cons: "keys ((k, v) # d) = insert k (keys d)"
  by (simp add: keys_def)

lemma keys_dict_update: "keys (dict_update other d) = keys d \<union> keys other"
  by (induction other d rule: dict_update.induct) (auto simp: keys_dict_set keys_Cons keys_Nil)

lemma start_client_result:
  "start_client env i c s = (r, s') \<Longrightarrow>
     multi_clients s' = multi_clients s \<and>
     ((r = Inr None \<and> work_loads s' = work_loads s) \<or>
      (r = Inr (Some (i, Secondary i)) \<and> work_loads s' = dict_set i 0 (work_loads s)))"
  by (auto simp: start_client_cases log_info_def log_error_def emit_def
      split: sum.splits option.splits)

lemma run_tasks_registry:
  "run_tasks env ts s = (Inr finished, s') \<Longrightarrow>
     multi_clients s' = multi_clients s \<and>
     (\<forall>(i, r) \<in> set finished. r = None \<or> r = Some (i, Secondary i)) \<and>
     fst ` set finished = fst ` set ts \<and>
     keys (work_loads s') = keys (work_loads s) \<union> {i. (i, Some (i, Secondary i)) \<in> set finished}"
proof (induction ts arbitrary: s finished)
  case Nil
  then show ?case by simp
next
  case (Cons t ts)
  obtain i c where t: "t = (i, c)" by (cases t)
  obtain r s1 where first: "start_client env i c s = (r, s1)" by (cases "start_client env i c s")
  from Cons.prems t first obtain r' rest where
    r: "r = Inr r'" and rest: "run_tasks env ts s1 = (Inr rest, s')" and fin: "finished = (i, r') # rest"
    by (auto split: sum.splits prod.splits)
  note ih = Cons.IH [OF rest]
  from start_client_result [OF first] r
  have mc: "multi_clients s1 = multi_clients s"
    and wl: "(r' = None \<and> work_loads s1 = work_loads s) \<or>
             (r' = Some (i, Secondary i) \<and> work_loads s1 = dict_set i 0 (work_loads s))"
    by auto
  show ?case
    using ih mc wl unfolding fin t
    by (auto simp: keys_dict_set)
qed


lemma collect_clients_keys:
  "collect_clients rs acc = Inr d \<Longrightarrow>
     None \<notin> set rs \<and> keys d = keys acc \<union> {i. \<exists>h. Some (i, h) \<in> set rs}"
  by (induction rs acc rule: collect_clients.induct)
    (auto simp: keys_dict_set truthy_def)

lemma gather_all_started:
  assumes g: "gather env ts s = (Inr results, s')" and ok: "None \<notin> set results"
  shows "multi_clients s' = multi_clients s"
    and "keys (work_loads s') = keys (work_loads s) \<union> fst ` set ts"
    and "{i. \<exists>h. Some (i, h) \<in> set results} = fst ` set ts"
proof -
  let ?sorted = "sort_key (\<lambda>(i, conf). finish_rank env i) ts"
  from g obtain finished where
    run: "run_tasks env ?sorted s = (Inr finished, s')" and
    res: "results = map (\<lambda>(i, conf). result_of finished i) ts"
    by (auto simp: gather_def split: sum.splits prod.splits)
  from run_tasks_registry [OF run]
  have mc: "multi_clients s' = multi_clients s"
    and own: "\<forall>(i, r) \<in> set finished. r = None \<or> r = Some (i, Secondary i)"
    and dom: "fst ` set finished = fst ` set ts"
    and wl: "keys (work_loads s') =
             keys (work_loads s) \<union> {i. (i, Some (i, Secondary i)) \<in> set finished}"
    by simp_all
  have nonnull: "result_of finished i \<noteq> None" if "(i, c) \<in> set ts" for i c
  proof -
    from that have "(case (i, c) of (i, conf) \<Rightarrow> result_of finished i) \<in> set results"
      unfolding res set_map by (rule imageI)
    then have "result_of finished i \<in> set results" by simp
    with ok show ?thesis by metis
  qed
  have each: "(i, Some (i, Secondary i)) \<in> set finished" if "(i, c) \<in> set ts" for i c
  proof -
    from that have "result_of finished i \<noteq> None" by (rule nonnull)
    then obtain x where "map_of finished i = Some (Some x)"
      by (auto simp: result_of_def split: option.splits)
    then have "(i, Some x) \<in> set finished" by (rule map_of_SomeD)
    with own show ?thesis by auto
  qed
  have res_eq: "result_of finished i = Some (i, Secondary i)" if "(i, c) \<in> set ts" for i c
  proof -
    from that have "result_of finished i \<noteq> None" by (rule nonnull)
    then obtain x where m: "map_of finished i = Some (Some x)"
      by (auto simp: result_of_def split: option.splits)
    then have "(i, Some x) \<in> set finished" by (rule map_of_SomeD)
    with own have "x = (i, Secondary i)" by auto
    with m show ?thesis by (simp add: result_of_def)
  qed
  show "multi_clients s' = multi_clients s" by (rule mc)
  show "keys (work_loads s') = keys (work_loads s) \<union> fst ` set ts"
    unfolding wl using each dom by force
  show "{i. \<exists>h. Some (i, h) \<in> set results} = fst ` set ts"
    unfolding res using res_eq by force
qed

lemma spawn_all_dicts:
  "multi_clients (spawn_all ts s) = multi_clients s \<and> work_loads (spawn_all ts s) = work_loads s"
  by (induction ts s rule: spawn_all.induct) (simp_all add: create_task_def emit_def)

lemma initialize_clients_keys:
  assumes eq: "keys (multi_clients s) = keys (work_loads s)"
    and ok: "initialize_clients env cfg s = (Inr (), s')"
  shows "keys (multi_clients s') = keys (work_loads s')"
proof (cases "additional_clients_conf cfg = []")
  case True
  with ok eq show ?thesis
    by (auto simp: initialize_clients_def Let_def log_info_def emit_def keys_dict_set)
next
  case False
  let ?s1 = "log_info DefaultClientInitialized
               (s\<lparr>multi_clients := dict_set 0 Bot (multi_clients s),
                  work_loads := dict_set 0 0 (work_loads s)\<rparr>)"
  let ?ts = "additional_clients_conf cfg"
  from ok False obtain results s3 clients where
    g: "gather env ?ts (spawn_all ?ts ?s1) = (Inr results, s3)" and
    c: "collect_clients results [] = Inr clients" and
    mc: "multi_clients s' = dict_update clients (multi_clients s3)" and
    wl: "work_loads s' = work_loads s3"
    by (auto simp: initialize_clients_def Let_def log_info_def emit_def
        split: sum.splits prod.splits if_splits)
  from collect_clients_keys [OF c]
  have none: "None \<notin> set results" and kc: "keys clients = {i. \<exists>h. Some (i, h) \<in> set results}"
    by (simp_all add: keys_Nil)
  from gather_all_started [OF g none] spawn_all_dicts [of ?ts ?s1]
  have "multi_clients s3 = dict_set 0 Bot (multi_clients s)"
    and "keys (work_loads s3) = keys (dict_set 0 0 (work_loads s)) \<union> fst ` set ?ts"
    and "{i. \<exists>h. Some (i, h) \<in> set results} = fst ` set ?ts"
    by (simp_all add: log_info_def emit_def)
  with mc wl kc eq show ?thesis
    by (simp add: keys_dict_update keys_dict_set)
qed


lemma client_stop_dicts:
  "multi_clients (snd (client_stop env h s)) = multi_clients s \<and>
   work_loads (snd (client_stop env h s)) = work_loads s"
  by (simp add: client_stop_def emit_def Let_def split: option.splits)

lemma stop_loop_dicts:
  "multi_clients (snd (stop_loop env pool s)) = multi_clients s \<and>
   work_loads (snd (stop_loop env pool s)) = work_loads s"
proof (induction pool arbitrary: s)
  case Nil
  show ?case by simp
next
  case (Cons p pool)
  obtain i h where p: "p = (i, h)" by (cases p)
  obtain r s1 where st: "client_stop env h s = (r, s1)" by (cases "client_stop env h s")
  from client_stop_dicts [of env h s] st
  have s1: "multi_clients s1 = multi_clients s" "work_loads s1 = work_loads s" by simp_all
  show ?case
    unfolding p using Cons.IH st s1
    by (simp add: seq_def send_error_def log_info_def log_error_def emit_def
        split: sum.splits option.splits prod.splits)
qed

lemma seq_dicts:
  assumes "multi_clients (snd r) = multi_clients s \<and> work_loads (snd r) = work_loads s"
    and "\<And>x s1. multi_clients s1 = multi_clients s \<and> work_loads s1 = work_loads s \<Longrightarrow>
           multi_clients (snd (f x s1)) = multi_clients s \<and> work_loads (snd (f x s1)) = work_loads s"
  shows "multi_clients (snd (seq r f)) = multi_clients s \<and> work_loads (snd (seq r f)) = work_loads s"
  using assms by (cases r) (auto simp: seq_def split: sum.splits)

lemma stop_clients_dicts:
  "multi_clients (snd (stop_clients env s)) = multi_clients s \<and>
   work_loads (snd (stop_clients env s)) = work_loads s"
  unfolding stop_clients_def
proof (intro seq_dicts)
  show "multi_clients (snd (send_info env NoticeStopping (log_info StoppingAllClients s))) =
          multi_clients s \<and>
        work_loads (snd (send_info env NoticeStopping (log_info StoppingAllClients s))) =
          work_loads s"
    by (simp add: send_info_def log_info_def emit_def split: option.splits)
next
  fix x :: unit and s1 :: state
  assume "multi_clients s1 = multi_clients s \<and> work_loads s1 = work_loads s"
  then show "multi_clients (snd (shutdowndb env s1)) = multi_clients s \<and>
             work_loads (snd (shutdowndb env s1)) = work_loads s"
    by (simp add: shutdowndb_def emit_def split: option.splits)
next
  fix x :: unit and s1 :: state
  assume "multi_clients s1 = multi_clients s \<and> work_loads s1 = work_loads s"
  then show "multi_clients (snd (client_stop env Bot s1)) = multi_clients s \<and>
             work_loads (snd (client_stop env Bot s1)) = work_loads s"
    by (simp add: client_stop_dicts)
next
  fix x :: unit and s1 :: state
  assume "multi_clients s1 = multi_clients s \<and> work_loads s1 = work_loads s"
  then show "multi_clients (snd (stop_loop env (multi_clients s1) s1)) = multi_clients s \<and>
             work_loads (snd (stop_loop env (multi_clients s1) s1)) = work_loads s"
    using stop_loop_dicts [of env "multi_clients s1" s1] by simp
qed

text \<open>
  C7, as the claim states it, fails: after a successful \<open>start_client\<close> has settled, on a
  fresh process, the registry has the key 1 and the pool has no key.
\<close>

theorem registry_ahead_of_pool:
  "keys (work_loads fresh) = keys (multi_clients fresh) \<and>
   fst (start_client all_succeed 1 valid fresh) = Inr (Some (1, Secondary 1)) \<and>
   keys (work_loads (snd (start_client all_succeed 1 valid fresh))) = {1} \<and>
   keys (multi_clients (snd (start_client all_succeed 1 valid fresh))) = {}"
  by (simp add: start_client_cases all_succeed_def valid_def fresh_def client_args_def
      log_info_def emit_def keys_def)

text \<open>
  C7, amended. \<open>start_client\<close> leaves the pool alone and keeps it inside the registry:
  a successful start adds its identifier to \<open>work_loads\<close> only, and the pool gets it at the
  merge of line 104. \<open>stop_clients\<close> changes neither dictionary. When \<open>initialize_clients\<close>
  returns normally from a state in which both have the same keys, they have the same keys
  again.
\<close>

theorem pool_within_registry:
  "(keys (multi_clients s) \<subseteq> keys (work_loads s) \<longrightarrow>
      multi_clients (snd (start_client env i c s)) = multi_clients s \<and>
      keys (multi_clients (snd (start_client env i c s)))
        \<subseteq> keys (work_loads (snd (start_client env i c s)))) \<and>
   multi_clients (snd (stop_clients env s)) = multi_clients s \<and>
   work_loads (snd (stop_clients env s)) = work_loads s \<and>
   (keys (multi_clients s) = keys (work_loads s) \<and>
    fst (initialize_clients env CLIENTS_CONFIG s) = Inr () \<longrightarrow>
      keys (multi_clients (snd (initialize_clients env CLIENTS_CONFIG s))) =
      keys (work_loads (snd (initialize_clients env CLIENTS_CONFIG s))))"
proof -
  obtain r s1 where st: "start_client env i c s = (r, s1)" by (cases "start_client env i c s")
  from start_client_result [OF st]
  have start: "keys (multi_clients s) \<subseteq> keys (work_loads s) \<longrightarrow>
      multi_clients s1 = multi_clients s \<and> keys (multi_clients s1) \<subseteq> keys (work_loads s1)"
    by (auto simp: keys_dict_set)
  have init: "keys (multi_clients s) = keys (work_loads s) \<and>
      fst (initialize_clients env CLIENTS_CONFIG s) = Inr () \<longrightarrow>
      keys (multi_clients (snd (initialize_clients env CLIENTS_CONFIG s))) =
      keys (work_loads (snd (initialize_clients env CLIENTS_CONFIG s)))"
    using initialize_clients_keys [of s env CLIENTS_CONFIG "snd (initialize_clients env CLIENTS_CONFIG s)"]
    by (cases "initialize_clients env CLIENTS_CONFIG s") auto
  from st have "snd (start_client env i c s) = s1" by simp
  with start init stop_clients_dicts [of env s] show ?thesis by metis
qed

theorem pool_within_registry_witness:
  "keys (multi_clients fresh) = keys (work_loads fresh) \<and>
   fst (initialize_clients all_succeed [(0, valid), (1, valid), (2, valid)] fresh) = Inr () \<and>
   keys (multi_clients (snd (initialize_clients all_succeed [(0, valid), (1, valid), (2, valid)] fresh))) =
   keys (work_loads (snd (initialize_clients all_succeed [(0, valid), (1, valid), (2, valid)] fresh))) \<and>
   keys (multi_clients (snd (start_client all_succeed 1 valid fresh)))
     \<subseteq> keys (work_loads (snd (start_client all_succeed 1 valid fresh)))"
proof -
  have a: "keys (multi_clients fresh) = keys (work_loads fresh)"
    by (simp add: fresh_def keys_def)
  have b: "fst (initialize_clients all_succeed [(0, valid), (1, valid), (2, valid)] fresh) = Inr ()"
    by code_simp
  from a have c: "keys (multi_clients fresh) \<subseteq> keys (work_loads fresh)" by simp
  from a b c
    pool_within_registry [of fresh all_succeed 1 valid "[(0, valid), (1, valid), (2, valid)]"]
  show ?thesis by blast
qed

section \<open>The order of the stops\<close>

lemma exI2: "P a b \<Longrightarrow> \<exists>x y. P x y"
  by blast

lemma client_stop_trace:
  "\<exists>r. trace (snd (client_stop env h s)) = trace s @ stop_pair (h, r) \<and>
       fst (client_stop env h s) = (case r of None \<Rightarrow> Inr () | Some e \<Rightarrow> Inl e)"
  by (simp add: client_stop_def emit_def Let_def split: option.splits)

lemma stop_events_pairs:
  "filter stop_event (concat (map stop_pair hrs)) = concat (map stop_pair hrs)"
  by (induction hrs) (auto simp: stop_event_def)

lemma secondaries_Cons:
  "secondaries ((i, h) # pool) = (if i \<noteq> 0 then h # secondaries pool else secondaries pool)"
  by (simp add: secondaries_def)

lemma stop_loop_events:
  "\<exists>hrs evs. trace (snd (stop_loop env pool s)) = trace s @ evs \<and>
      filter stop_event evs = concat (map stop_pair hrs) \<and>
      map fst hrs = take (length hrs) (secondaries pool) \<and>
      (fst (stop_loop env pool s) = Inr () \<longrightarrow> map fst hrs = secondaries pool) \<and>
      LogInfo StoppingAllClients \<notin> set evs"
proof (induction pool arbitrary: s)
  case Nil
  have found: "trace (snd (stop_loop env [] s)) = trace s @ [] \<and>
      filter stop_event [] = concat (map stop_pair []) \<and>
      map fst ([] :: (handle \<times> exn option) list) = take (length ([] :: (handle \<times> exn option) list)) (secondaries []) \<and>
      (fst (stop_loop env [] s) = Inr () \<longrightarrow> map fst ([] :: (handle \<times> exn option) list) = secondaries []) \<and>
      LogInfo StoppingAllClients \<notin> set []"
    by (simp add: secondaries_def)
  show ?case by (rule exI2) (rule found)
next
  case (Cons p pool)
  obtain i h where p: "p = (i, h)" by (cases p)
  have "\<exists>hrs evs. trace (snd (stop_loop env ((i, h) # pool) s)) = trace s @ evs \<and>
      filter stop_event evs = concat (map stop_pair hrs) \<and>
      map fst hrs = take (length hrs) (secondaries ((i, h) # pool)) \<and>
      (fst (stop_loop env ((i, h) # pool) s) = Inr () \<longrightarrow> map fst hrs = secondaries ((i, h) # pool)) \<and>
      LogInfo StoppingAllClients \<notin> set evs"
  proof (cases "i = 0")
    case True
    with Cons.IH [of s] show ?thesis
      by (simp add: secondaries_Cons)
  next
    case False
    obtain r where tr1: "trace (snd (client_stop env h s)) = trace s @ stop_pair (h, r)"
      and res1: "fst (client_stop env h s) = (case r of None \<Rightarrow> Inr () | Some e \<Rightarrow> Inl e)"
      using client_stop_trace [of env h s] by blast
    obtain s1 where s1: "snd (client_stop env h s) = s1" by simp
    show ?thesis
    proof (cases r)
      case None
      let ?s2 = "log_info (ClientStopped i) s1"
      from None res1 s1 have cs: "client_stop env h s = (Inr (), s1)"
        by (cases "client_stop env h s") simp
      have step: "stop_loop env ((i, h) # pool) s = stop_loop env pool ?s2"
        using False cs by simp
      have tr2: "trace ?s2 = trace s @ [StopBegin h, StopSettled h None, LogInfo (ClientStopped i)]"
        using tr1 s1 None by (simp add: log_info_def emit_def)
      from Cons.IH [of ?s2] obtain hrs evs where
        ih: "trace (snd (stop_loop env pool ?s2)) = trace ?s2 @ evs"
          "filter stop_event evs = concat (map stop_pair hrs)"
          "map fst hrs = take (length hrs) (secondaries pool)"
          "fst (stop_loop env pool ?s2) = Inr () \<longrightarrow> map fst hrs = secondaries pool"
          "LogInfo StoppingAllClients \<notin> set evs"
        by blast
      let ?evs = "[StopBegin h, StopSettled h None, LogInfo (ClientStopped i)] @ evs"
      let ?hrs = "(h, None) # hrs"
      have found: "trace (snd (stop_loop env ((i, h) # pool) s)) = trace s @ ?evs \<and>
        filter stop_event ?evs = concat (map stop_pair ?hrs) \<and>
        map fst ?hrs = take (length ?hrs) (secondaries ((i, h) # pool)) \<and>
        (fst (stop_loop env ((i, h) # pool) s) = Inr () \<longrightarrow> map fst ?hrs = secondaries ((i, h) # pool)) \<and>
        LogInfo StoppingAllClients \<notin> set ?evs"
        using ih tr2 False unfolding step
        by (simp add: secondaries_Cons stop_event_def)
      show ?thesis by (rule exI2) (rule found)
    next
      case (Some e)
      let ?s2 = "log_error (ErrorStoppingClient i e) s1"
      from Some res1 s1 have cs: "client_stop env h s = (Inl e, s1)"
        by (cases "client_stop env h s") simp
      have step: "stop_loop env ((i, h) # pool) s =
          seq (send_error env (NoticeErrorStopping i) (Some e) ?s2) (\<lambda>u. stop_loop env pool)"
        using False cs by simp
      let ?pre = "[StopBegin h, StopSettled h (Some e), LogError (ErrorStoppingClient i e),
          SendError (NoticeErrorStopping i) (Some e)]"
      let ?s3 = "snd (send_error env (NoticeErrorStopping i) (Some e) ?s2)"
      have tr3: "trace ?s3 = trace s @ ?pre"
        using tr1 s1 Some by (simp add: send_error_def log_error_def emit_def split: option.splits)
      show ?thesis
      proof (cases "fst (send_error env (NoticeErrorStopping i) (Some e) ?s2)")
        case (Inl e')
        then have out: "stop_loop env ((i, h) # pool) s = (Inl e', ?s3)"
          unfolding step
          by (cases "send_error env (NoticeErrorStopping i) (Some e) ?s2") (simp add: seq_def)
        let ?hrs = "[(h, Some e)]"
        have found: "trace (snd (stop_loop env ((i, h) # pool) s)) = trace s @ ?pre \<and>
          filter stop_event ?pre = concat (map stop_pair ?hrs) \<and>
          map fst ?hrs = take (length ?hrs) (secondaries ((i, h) # pool)) \<and>
          (fst (stop_loop env ((i, h) # pool) s) = Inr () \<longrightarrow> map fst ?hrs = secondaries ((i, h) # pool)) \<and>
          LogInfo StoppingAllClients \<notin> set ?pre"
          using tr3 False unfolding out
          by (simp add: secondaries_Cons stop_event_def)
        show ?thesis by (rule exI2) (rule found)
      next
        case (Inr u)
        then have step2: "stop_loop env ((i, h) # pool) s = stop_loop env pool ?s3"
          unfolding step
          by (cases "send_error env (NoticeErrorStopping i) (Some e) ?s2") (simp add: seq_def)
        from Cons.IH [of ?s3] obtain hrs evs where
          ih: "trace (snd (stop_loop env pool ?s3)) = trace ?s3 @ evs"
            "filter stop_event evs = concat (map stop_pair hrs)"
            "map fst hrs = take (length hrs) (secondaries pool)"
            "fst (stop_loop env pool ?s3) = Inr () \<longrightarrow> map fst hrs = secondaries pool"
            "LogInfo StoppingAllClients \<notin> set evs"
          by blast
        let ?evs = "?pre @ evs"
        let ?hrs = "(h, Some e) # hrs"
        have found: "trace (snd (stop_loop env ((i, h) # pool) s)) = trace s @ ?evs \<and>
          filter stop_event ?evs = concat (map stop_pair ?hrs) \<and>
          map fst ?hrs = take (length ?hrs) (secondaries ((i, h) # pool)) \<and>
          (fst (stop_loop env ((i, h) # pool) s) = Inr () \<longrightarrow> map fst ?hrs = secondaries ((i, h) # pool)) \<and>
          LogInfo StoppingAllClients \<notin> set ?evs"
          using ih tr3 False unfolding step2
          by (simp add: secondaries_Cons stop_event_def)
        show ?thesis by (rule exI2) (rule found)
      qed
    qed
  qed
  then show ?case unfolding p .
qed


lemma stop_clients_events:
  "\<exists>hrs evs. trace (snd (stop_clients env s)) = trace s @ LogInfo StoppingAllClients # evs \<and>
      filter stop_event evs = concat (map stop_pair hrs) \<and>
      map fst hrs = take (length hrs) (Bot # secondaries (multi_clients s)) \<and>
      (fst (stop_clients env s) = Inr () \<longrightarrow> map fst hrs = Bot # secondaries (multi_clients s)) \<and>
      LogInfo StoppingAllClients \<notin> set evs"
proof -
  let ?s0 = "log_info StoppingAllClients s"
  let ?s1 = "snd (send_info env NoticeStopping ?s0)"
  let ?s2 = "snd (shutdowndb env ?s1)"
  let ?s3 = "snd (client_stop env Bot ?s2)"
  have tr1: "trace ?s1 = trace s @ [LogInfo StoppingAllClients, SendInfo NoticeStopping]"
    by (simp add: send_info_def log_info_def emit_def split: option.splits)
  have tr2: "trace ?s2 = trace s @ [LogInfo StoppingAllClients, SendInfo NoticeStopping, CloseConnections]"
    using tr1 by (simp add: shutdowndb_def emit_def split: option.splits)
  obtain r where tr3: "trace ?s3 = trace ?s2 @ stop_pair (Bot, r)"
    and res3: "fst (client_stop env Bot ?s2) = (case r of None \<Rightarrow> Inr () | Some e \<Rightarrow> Inl e)"
    using client_stop_trace [of env Bot ?s2] by blast
  have mc3: "multi_clients ?s3 = multi_clients s"
    by (simp add: client_stop_dicts shutdowndb_def send_info_def log_info_def emit_def
        split: option.splits)
  show ?thesis
  proof (cases "fst (send_info env NoticeStopping ?s0)")
    case (Inl e)
    then have out: "stop_clients env s = (Inl e, ?s1)"
      by (cases "send_info env NoticeStopping ?s0") (simp add: stop_clients_def seq_def)
    have found: "trace (snd (stop_clients env s)) = trace s @ LogInfo StoppingAllClients # [SendInfo NoticeStopping] \<and>
      filter stop_event [SendInfo NoticeStopping] = concat (map stop_pair []) \<and>
      map fst ([] :: (handle \<times> exn option) list) = take (length ([] :: (handle \<times> exn option) list)) (Bot # secondaries (multi_clients s)) \<and>
      (fst (stop_clients env s) = Inr () \<longrightarrow>
         map fst ([] :: (handle \<times> exn option) list) = Bot # secondaries (multi_clients s)) \<and>
      LogInfo StoppingAllClients \<notin> set [SendInfo NoticeStopping]"
      unfolding out using tr1 by (simp add: stop_event_def)
    show ?thesis by (rule exI2) (rule found)
  next
    case a: (Inr u)
    then have step1: "stop_clients env s =
        seq (shutdowndb env ?s1) (\<lambda>u s2. seq (client_stop env Bot s2) (\<lambda>u s3.
          stop_loop env (multi_clients s3) s3))"
      by (cases "send_info env NoticeStopping ?s0") (simp add: stop_clients_def seq_def)
    show ?thesis
    proof (cases "fst (shutdowndb env ?s1)")
      case (Inl e)
      then have out: "stop_clients env s = (Inl e, ?s2)"
        unfolding step1 by (cases "shutdowndb env ?s1") (simp add: seq_def)
      have found: "trace (snd (stop_clients env s)) =
          trace s @ LogInfo StoppingAllClients # [SendInfo NoticeStopping, CloseConnections] \<and>
        filter stop_event [SendInfo NoticeStopping, CloseConnections] = concat (map stop_pair []) \<and>
        map fst ([] :: (handle \<times> exn option) list) = take (length ([] :: (handle \<times> exn option) list)) (Bot # secondaries (multi_clients s)) \<and>
        (fst (stop_clients env s) = Inr () \<longrightarrow>
           map fst ([] :: (handle \<times> exn option) list) = Bot # secondaries (multi_clients s)) \<and>
        LogInfo StoppingAllClients \<notin> set [SendInfo NoticeStopping, CloseConnections]"
        unfolding out using tr2 by (simp add: stop_event_def)
      show ?thesis by (rule exI2) (rule found)
    next
      case b: (Inr u)
      then have step2: "stop_clients env s =
          seq (client_stop env Bot ?s2) (\<lambda>u s3. stop_loop env (multi_clients s3) s3)"
        unfolding step1 by (cases "shutdowndb env ?s1") (simp add: seq_def)
      show ?thesis
      proof (cases r)
        case (Some e)
        with res3 have out: "stop_clients env s = (Inl e, ?s3)"
          unfolding step2 by (cases "client_stop env Bot ?s2") (simp add: seq_def)
        let ?evs = "[SendInfo NoticeStopping, CloseConnections, StopBegin Bot, StopSettled Bot (Some e)]"
        have found: "trace (snd (stop_clients env s)) = trace s @ LogInfo StoppingAllClients # ?evs \<and>
          filter stop_event ?evs = concat (map stop_pair [(Bot, Some e)]) \<and>
          map fst [(Bot, Some e)] = take (length [(Bot, Some e)]) (Bot # secondaries (multi_clients s)) \<and>
          (fst (stop_clients env s) = Inr () \<longrightarrow>
             map fst [(Bot, Some e)] = Bot # secondaries (multi_clients s)) \<and>
          LogInfo StoppingAllClients \<notin> set ?evs"
          unfolding out using tr2 tr3 Some by (simp add: stop_event_def)
        show ?thesis by (rule exI2) (rule found)
      next
        case None
        with res3 have step3: "stop_clients env s = stop_loop env (multi_clients s) ?s3"
          unfolding step2 using mc3 by (cases "client_stop env Bot ?s2") (simp add: seq_def)
        from stop_loop_events [of env "multi_clients s" ?s3] obtain hrs evs where
          ih: "trace (snd (stop_loop env (multi_clients s) ?s3)) = trace ?s3 @ evs"
            "filter stop_event evs = concat (map stop_pair hrs)"
            "map fst hrs = take (length hrs) (secondaries (multi_clients s))"
            "fst (stop_loop env (multi_clients s) ?s3) = Inr () \<longrightarrow>
               map fst hrs = secondaries (multi_clients s)"
            "LogInfo StoppingAllClients \<notin> set evs"
          by blast
        let ?evs = "[SendInfo NoticeStopping, CloseConnections, StopBegin Bot, StopSettled Bot None] @ evs"
        let ?hrs = "(Bot, None) # hrs"
        have found: "trace (snd (stop_clients env s)) = trace s @ LogInfo StoppingAllClients # ?evs \<and>
          filter stop_event ?evs = concat (map stop_pair ?hrs) \<and>
          map fst ?hrs = take (length ?hrs) (Bot # secondaries (multi_clients s)) \<and>
          (fst (stop_clients env s) = Inr () \<longrightarrow> map fst ?hrs = Bot # secondaries (multi_clients s)) \<and>
          LogInfo StoppingAllClients \<notin> set ?evs"
          unfolding step3 using ih tr2 tr3 None by (simp add: stop_event_def)
        show ?thesis by (rule exI2) (rule found)
      qed
    qed
  qed
qed


lemma new_events_append: "trace s' = trace s @ evs \<Longrightarrow> new_events s s' = evs"
  by (simp add: new_events_def)

text \<open>
  C9, as the claim states it, fails: with three clients in the pool and no failure, the
  stop of client 2 is begun only after the stop of client 1 has settled. The secondary
  stops are not fanned out.
\<close>

theorem secondary_stops_not_fanned_out:
  "new_events serving (snd (stop_clients all_succeed serving)) =
     [LogInfo StoppingAllClients, SendInfo NoticeStopping, CloseConnections,
      StopBegin Bot, StopSettled Bot None,
      StopBegin (Secondary 1), StopSettled (Secondary 1) None, LogInfo (ClientStopped 1),
      StopBegin (Secondary 2), StopSettled (Secondary 2) None, LogInfo (ClientStopped 2)] \<and>
   \<not> fanned_out (new_events serving (snd (stop_clients all_succeed serving)))"
  by code_simp

text \<open>
  C9, amended. The stop events of \<open>stop_clients\<close> are begin and settling of one client
  after the other, each stop settled before the next begins: first the primary client,
  then the pool's other clients in the pool's order, up to the point where \<open>stop_clients\<close>
  ends. When \<open>stop_clients\<close> returns, that is the primary and every other client of the pool.
\<close>

theorem stops_one_after_another:
  "\<exists>hrs. filter stop_event (new_events s (snd (stop_clients env s))) = concat (map stop_pair hrs) \<and>
     map fst hrs = take (length hrs) (Bot # secondaries (multi_clients s)) \<and>
     (fst (stop_clients env s) = Inr () \<longrightarrow> map fst hrs = Bot # secondaries (multi_clients s))"
proof -
  from stop_clients_events [of env s] obtain hrs evs where
    tr: "trace (snd (stop_clients env s)) = trace s @ LogInfo StoppingAllClients # evs" and
    rest: "filter stop_event evs = concat (map stop_pair hrs)"
      "map fst hrs = take (length hrs) (Bot # secondaries (multi_clients s))"
      "fst (stop_clients env s) = Inr () \<longrightarrow> map fst hrs = Bot # secondaries (multi_clients s)"
    by (elim exE conjE)
  from tr have "new_events s (snd (stop_clients env s)) = LogInfo StoppingAllClients # evs"
    by (rule new_events_append)
  with rest have "filter stop_event (new_events s (snd (stop_clients env s))) = concat (map stop_pair hrs) \<and>
     map fst hrs = take (length hrs) (Bot # secondaries (multi_clients s)) \<and>
     (fst (stop_clients env s) = Inr () \<longrightarrow> map fst hrs = Bot # secondaries (multi_clients s))"
    by (simp add: stop_event_def)
  then show ?thesis by (rule exI)
qed

theorem stops_one_after_another_witness:
  "fst (stop_clients all_succeed serving) = Inr () \<and>
   (\<exists>hrs. filter stop_event (new_events serving (snd (stop_clients all_succeed serving))) =
            concat (map stop_pair hrs) \<and>
          map fst hrs = [Bot, Secondary 1, Secondary 2])"
proof -
  have a: "fst (stop_clients all_succeed serving) = Inr ()" by code_simp
  have b: "Bot # secondaries (multi_clients serving) = [Bot, Secondary 1, Secondary 2]"
    by (simp add: secondaries_def serving_def)
  from stops_one_after_another [of serving all_succeed] a b show ?thesis by auto
qed

section \<open>Repeated shutdown triggers\<close>

lemma digits_two: "digits (Suc (Suc 0)) = ''2''"
  by code_simp

text \<open>
  One signal alone: its \<open>TypeError\<close> ends the \<open>try\<close> block before \<open>init\<close> has made a step, the
  traceback is logged, and the \<open>finally\<close> block runs the sequence once, on a pool that is
  still empty.
\<close>

lemma one_signal_one_run:
  "app one_signal three_clients fresh =
     (Inr (),
      fresh\<lparr>trace :=
        [LogError (Traceback
           (TypeError ''signal_handler() takes 1 positional argument but 2 were given'')),
         LogInfo StoppingAllClients, SendInfo NoticeStopping, CloseConnections,
         StopBegin Bot, StopSettled Bot None, LoopStop]\<rparr>)"
  by code_simp

text \<open>
  C2. Every delivered signal is the call \<open>signal_handler(signum, frame)\<close>, which raises
  \<open>TypeError\<close> before line 161: nothing is logged and no \<open>shutdown\<close> task is scheduled. With
  two signals in quick succession the first \<open>TypeError\<close> ends the \<open>try\<close> block and is logged,
  and the second leaves the \<open>finally\<close> block before \<open>stop_clients\<close> has made a step: the
  script ends with that exception, \<open>loop.stop()\<close> is not reached, and the shutdown sequence
  has not run once.
\<close>

theorem signals_raise_and_cut_the_shutdown:
  "deliver_signal signum s =
     (Inl (TypeError ''signal_handler() takes 1 positional argument but 2 were given''), s) \<and>
   app two_signals three_clients fresh =
     (Inl (TypeError ''signal_handler() takes 1 positional argument but 2 were given''),
      fresh\<lparr>trace :=
        [LogError (Traceback
           (TypeError ''signal_handler() takes 1 positional argument but 2 were given''))]\<rparr>) \<and>
   sequence_runs (trace (snd (app two_signals three_clients fresh))) = 0"
proof -
  have a: "deliver_signal signum s =
     (Inl (TypeError ''signal_handler() takes 1 positional argument but 2 were given''), s)"
    by (simp add: deliver_signal_def call_signal_handler_def digits_two del: digits.simps)
  have b: "app two_signals three_clients fresh =
     (Inl (TypeError ''signal_handler() takes 1 positional argument but 2 were given''),
      fresh\<lparr>trace :=
        [LogError (Traceback
           (TypeError ''signal_handler() takes 1 positional argument but 2 were given''))]\<rparr>)"
    by code_simp
  from a b show ?thesis
    by (simp add: sequence_runs_def fresh_def)
qed

section \<open>The order of the starts\<close>

lemma exI3: "P a b c \<Longrightarrow> \<exists>x y z. P x y z"
  by blast

lemma settled_append: "settled i (xs @ ys) = (settled i xs \<or> settled i ys)"
  by (simp add: settled_def)

lemma start_client_events:
  "\<exists>r s' evs. start_client env i c s = (Inr r, s') \<and> trace s' = trace s @ evs \<and>
      list_all task_event evs \<and> settled i evs"
proof (cases "client_args c")
  case (Inl e)
  let ?evs = "[LogInfo (Starting i), LogError (FailedToStart i e)]"
  let ?s' = "log_error (FailedToStart i e) (log_info (Starting i) s)"
  from Inl have found: "start_client env i c s = (Inr None, ?s') \<and> trace ?s' = trace s @ ?evs \<and>
      list_all task_event ?evs \<and> settled i ?evs"
    by (simp add: start_client_cases log_info_def log_error_def emit_def settled_def)
  show ?thesis by (rule exI3) (rule found)
next
  case (Inr args)
  show ?thesis
  proof (cases "start_result env (trace s @ [LogInfo (Starting i)]) (Secondary i) args")
    case None
    let ?evs = "[LogInfo (Starting i), StartSettled (Secondary i) None]"
    let ?s' = "(emit (StartSettled (Secondary i) None) (log_info (Starting i) s))
                  \<lparr>work_loads := dict_set i 0 (work_loads s)\<rparr>"
    from Inr None
    have found: "start_client env i c s = (Inr (Some (i, Secondary i)), ?s') \<and>
        trace ?s' = trace s @ ?evs \<and> list_all task_event ?evs \<and> settled i ?evs"
      by (simp add: start_client_cases log_info_def log_error_def emit_def settled_def)
    show ?thesis by (rule exI3) (rule found)
  next
    case (Some e)
    let ?evs = "[LogInfo (Starting i), StartSettled (Secondary i) (Some e), LogError (FailedToStart i e)]"
    let ?s' = "log_error (FailedToStart i e)
                  (emit (StartSettled (Secondary i) (Some e)) (log_info (Starting i) s))"
    from Inr Some
    have found: "start_client env i c s = (Inr None, ?s') \<and>
        trace ?s' = trace s @ ?evs \<and> list_all task_event ?evs \<and> settled i ?evs"
      by (simp add: start_client_cases log_info_def log_error_def emit_def settled_def)
    show ?thesis by (rule exI3) (rule found)
  qed
qed

lemma run_tasks_events:
  "\<exists>finished s' evs. run_tasks env ts s = (Inr finished, s') \<and> trace s' = trace s @ evs \<and>
      list_all task_event evs \<and> (\<forall>(i, c) \<in> set ts. settled i evs)"
proof (induction ts arbitrary: s)
  case Nil
  have found: "run_tasks env [] s = (Inr [], s) \<and> trace s = trace s @ [] \<and>
      list_all task_event [] \<and> (\<forall>(i, c) \<in> set ([] :: (client_id \<times> conf) list). settled i [])"
    by simp
  show ?case by (rule exI3) (rule found)
next
  case (Cons t ts)
  obtain i c where t: "t = (i, c)" by (cases t)
  from start_client_events [of env i c s] obtain r s1 evs1 where
    first: "start_client env i c s = (Inr r, s1)" and
    tr1: "trace s1 = trace s @ evs1" and
    ev1: "list_all task_event evs1" "settled i evs1"
    by (elim exE conjE)
  from Cons.IH [of s1] obtain finished s2 evs2 where
    rest: "run_tasks env ts s1 = (Inr finished, s2)" and
    tr2: "trace s2 = trace s1 @ evs2" and
    ev2: "list_all task_event evs2" "\<forall>(i, c) \<in> set ts. settled i evs2"
    by (elim exE conjE)
  have found: "run_tasks env ((i, c) # ts) s = (Inr ((i, r) # finished), s2) \<and>
      trace s2 = trace s @ (evs1 @ evs2) \<and>
      list_all task_event (evs1 @ evs2) \<and> (\<forall>(j, c') \<in> set ((i, c) # ts). settled j (evs1 @ evs2))"
    using first rest tr1 tr2 ev1 ev2 by (auto simp: settled_append)
  show ?case unfolding t by (rule exI3) (rule found)
qed

lemma spawn_all_trace:
  "trace (spawn_all ts s) = trace s @ map (\<lambda>(i, conf). CreateTask (StartClient i)) ts"
  by (induction ts s rule: spawn_all.induct) (simp_all add: create_task_def emit_def)

lemma gather_events:
  "\<exists>results s' evs. gather env ts s = (Inr results, s') \<and> trace s' = trace s @ evs \<and>
      list_all task_event evs \<and> (\<forall>(i, c) \<in> set ts. settled i evs)"
proof -
  let ?sorted = "sort_key (\<lambda>(i, conf). finish_rank env i) ts"
  from run_tasks_events [of env ?sorted s] obtain finished s' evs where
    run: "run_tasks env ?sorted s = (Inr finished, s')" and
    tr: "trace s' = trace s @ evs" and
    ev: "list_all task_event evs" "\<forall>(i, c) \<in> set ?sorted. settled i evs"
    by (elim exE conjE)
  let ?results = "map (\<lambda>(i, conf). result_of finished i) ts"
  have found: "gather env ts s = (Inr ?results, s') \<and> trace s' = trace s @ evs \<and>
      list_all task_event evs \<and> (\<forall>(i, c) \<in> set ts. settled i evs)"
    using run tr ev by (simp add: gather_def)
  show ?thesis by (rule exI3) (rule found)
qed

lemma initialize_clients_events:
  "\<exists>runs rest. trace (snd (initialize_clients env cfg s)) =
        trace s @ LogInfo DefaultClientInitialized #
          map (\<lambda>(i, conf). CreateTask (StartClient i)) (additional_clients_conf cfg) @ runs @ rest \<and>
      list_all task_event runs \<and>
      (\<forall>(i, conf) \<in> set (additional_clients_conf cfg). settled i runs) \<and>
      list_all (\<lambda>e. \<not> task_event e \<and> \<not> spawn_event e) rest"
proof (cases "additional_clients_conf cfg = []")
  case True
  then have found: "trace (snd (initialize_clients env cfg s)) =
        trace s @ LogInfo DefaultClientInitialized #
          map (\<lambda>(i, conf). CreateTask (StartClient i)) (additional_clients_conf cfg) @ [] @
          [LogInfo NoAdditionalClientsFound] \<and>
      list_all task_event [] \<and>
      (\<forall>(i, conf) \<in> set (additional_clients_conf cfg). settled i []) \<and>
      list_all (\<lambda>e. \<not> task_event e \<and> \<not> spawn_event e) [LogInfo NoAdditionalClientsFound]"
    by (simp add: initialize_clients_def Let_def log_info_def emit_def)
  show ?thesis by (rule exI2) (rule found)
next
  case False
  let ?ts = "additional_clients_conf cfg"
  let ?s1 = "log_info DefaultClientInitialized
               (s\<lparr>multi_clients := dict_set 0 Bot (multi_clients s),
                  work_loads := dict_set 0 0 (work_loads s)\<rparr>)"
  let ?s2 = "spawn_all ?ts ?s1"
  have tr2: "trace ?s2 = trace s @ LogInfo DefaultClientInitialized #
      map (\<lambda>(i, conf). CreateTask (StartClient i)) ?ts"
    by (simp add: spawn_all_trace log_info_def emit_def)
  from gather_events [of env ?ts ?s2] obtain results s3 runs where
    g: "gather env ?ts ?s2 = (Inr results, s3)" and
    tr3: "trace s3 = trace ?s2 @ runs" and
    ev: "list_all task_event runs" "\<forall>(i, c) \<in> set ?ts. settled i runs"
    by (elim exE conjE)
  have "\<exists>rest. trace (snd (initialize_clients env cfg s)) = trace s3 @ rest \<and>
      list_all (\<lambda>e. \<not> task_event e \<and> \<not> spawn_event e) rest"
  proof (cases "collect_clients results []")
    case (Inl e)
    with False g have "snd (initialize_clients env cfg s) = s3"
      by (simp add: initialize_clients_def Let_def)
    then have "trace (snd (initialize_clients env cfg s)) = trace s3 @ [] \<and>
      list_all (\<lambda>e. \<not> task_event e \<and> \<not> spawn_event e) []"
      by simp
    then show ?thesis by (rule exI)
  next
    case (Inr clients)
    let ?s4 = "s3\<lparr>multi_clients := dict_update clients (multi_clients s3)\<rparr>"
    let ?m = "if length (multi_clients ?s4) > 1 then MultiClientMode (length (multi_clients ?s4))
              else NoAdditionalClientsInitialized"
    from Inr False g have "snd (initialize_clients env cfg s) = log_info ?m ?s4"
      by (simp add: initialize_clients_def Let_def)
    then have "trace (snd (initialize_clients env cfg s)) = trace s3 @ [LogInfo ?m] \<and>
      list_all (\<lambda>e. \<not> task_event e \<and> \<not> spawn_event e) [LogInfo ?m]"
      by (simp add: log_info_def emit_def)
    then show ?thesis by (rule exI)
  qed
  then obtain rest where
    tr: "trace (snd (initialize_clients env cfg s)) = trace s3 @ rest" and
    quiet: "list_all (\<lambda>e. \<not> task_event e \<and> \<not> spawn_event e) rest"
    by (elim exE conjE)
  have found: "trace (snd (initialize_clients env cfg s)) =
        trace s @ LogInfo DefaultClientInitialized #
          map (\<lambda>(i, conf). CreateTask (StartClient i)) ?ts @ runs @ rest \<and>
      list_all task_event runs \<and>
      (\<forall>(i, conf) \<in> set ?ts. settled i runs) \<and>
      list_all (\<lambda>e. \<not> task_event e \<and> \<not> spawn_event e) rest"
    using tr tr3 tr2 ev quiet by simp
  show ?thesis by (rule exI2) (rule found)
qed


text \<open>
  C8. What \<open>init\<close> appends to the trace begins with the settling of the primary start, and
  when that start fails nothing follows: no secondary start is attempted. Otherwise every
  secondary start task is scheduled, in the configuration's order, before any of them
  runs; then the tasks run, and each of them reaches its outcome, success or logged failure,
  whatever the others do; only after that does initialization go on (its summary and the
  rest of \<open>init\<close>), with no event of a start task left.
\<close>

theorem startup_order:
  "\<exists>r rest. new_events s (snd (init env cfg bot_args s)) = StartSettled Bot r # rest \<and>
     (r \<noteq> None \<longrightarrow> rest = []) \<and>
     (r = None \<longrightarrow>
        (\<exists>runs tail.
           rest = [LogInfo BotStarted, LogInfo DefaultClientInitialized] @
                  map (\<lambda>(i, conf). CreateTask (StartClient i)) (additional_clients_conf cfg) @
                  runs @ tail \<and>
           list_all task_event runs \<and>
           (\<forall>(i, conf) \<in> set (additional_clients_conf cfg). settled i runs) \<and>
           list_all (\<lambda>e. \<not> task_event e \<and> \<not> spawn_event e) tail))"
proof (cases "start_result env (trace s) Bot bot_args")
  case (Some e)
  then have found: "new_events s (snd (init env cfg bot_args s)) = StartSettled Bot (Some e) # [] \<and>
     (Some e \<noteq> None \<longrightarrow> [] = ([] :: event list)) \<and>
     (Some e = None \<longrightarrow>
        (\<exists>runs tail.
           [] = [LogInfo BotStarted, LogInfo DefaultClientInitialized] @
                  map (\<lambda>(i, conf). CreateTask (StartClient i)) (additional_clients_conf cfg) @
                  runs @ tail \<and>
           list_all task_event runs \<and>
           (\<forall>(i, conf) \<in> set (additional_clients_conf cfg). settled i runs) \<and>
           list_all (\<lambda>e. \<not> task_event e \<and> \<not> spawn_event e) tail))"
    by (simp add: init_def client_start_def seq_def emit_def new_events_def)
  show ?thesis by (rule exI2) (rule found)
next
  case None
  let ?s1 = "log_info BotStarted (emit (StartSettled Bot None) s)"
  let ?spawns = "map (\<lambda>(i, conf). CreateTask (StartClient i)) (additional_clients_conf cfg)"
  have tr1: "trace ?s1 = trace s @ [StartSettled Bot None, LogInfo BotStarted]"
    by (simp add: log_info_def emit_def)
  from initialize_clients_events [of env cfg ?s1] obtain runs rest0 where
    tr2: "trace (snd (initialize_clients env cfg ?s1)) =
            trace ?s1 @ LogInfo DefaultClientInitialized # ?spawns @ runs @ rest0" and
    ev: "list_all task_event runs"
      "\<forall>(i, conf) \<in> set (additional_clients_conf cfg). settled i runs"
      "list_all (\<lambda>e. \<not> task_event e \<and> \<not> spawn_event e) rest0"
    by (elim exE conjE)
  obtain r2 s2 where ic: "initialize_clients env cfg ?s1 = (r2, s2)"
    by (cases "initialize_clients env cfg ?s1")
  have "\<exists>more. trace (snd (init env cfg bot_args s)) = trace s2 @ more \<and>
      list_all (\<lambda>e. \<not> task_event e \<and> \<not> spawn_event e) more"
  proof (cases r2)
    case (Inl e)
    with None ic have "trace (snd (init env cfg bot_args s)) = trace s2 @ [] \<and>
        list_all (\<lambda>e. \<not> task_event e \<and> \<not> spawn_event e) []"
      by (simp add: init_def client_start_def seq_def)
    then show ?thesis by (rule exI)
  next
    case (Inr u)
    let ?more = "[LogInfo StartingCacheManager, CreateTask CacheUpdater, LogInfo InitializingWebServer,
        CreateTask Serve, LogInfo BackendStarted, SendInfo NoticeBotStarted]"
    from Inr None ic have "trace (snd (init env cfg bot_args s)) = trace s2 @ ?more \<and>
        list_all (\<lambda>e. \<not> task_event e \<and> \<not> spawn_event e) ?more"
      by (simp add: init_def client_start_def seq_def send_info_def idle_def log_info_def
          create_task_def emit_def split: option.splits)
    then show ?thesis by (rule exI)
  qed
  then obtain more where
    tr3: "trace (snd (init env cfg bot_args s)) = trace s2 @ more" and
    quiet: "list_all (\<lambda>e. \<not> task_event e \<and> \<not> spawn_event e) more"
    by (elim exE conjE)
  from ic tr2 have tr2': "trace s2 = trace ?s1 @ LogInfo DefaultClientInitialized # ?spawns @ runs @ rest0"
    by simp
  have new: "new_events s (snd (init env cfg bot_args s)) =
      StartSettled Bot None #
        ([LogInfo BotStarted, LogInfo DefaultClientInitialized] @ ?spawns @ runs @ (rest0 @ more))"
    using tr3 tr2' tr1 by (simp add: new_events_def)
  have inner: "[LogInfo BotStarted, LogInfo DefaultClientInitialized] @ ?spawns @ runs @ (rest0 @ more) =
        [LogInfo BotStarted, LogInfo DefaultClientInitialized] @ ?spawns @ runs @ (rest0 @ more) \<and>
      list_all task_event runs \<and>
      (\<forall>(i, conf) \<in> set (additional_clients_conf cfg). settled i runs) \<and>
      list_all (\<lambda>e. \<not> task_event e \<and> \<not> spawn_event e) (rest0 @ more)"
    using ev quiet by simp
  have ex: "\<exists>runs' tail.
      [LogInfo BotStarted, LogInfo DefaultClientInitialized] @ ?spawns @ runs @ (rest0 @ more) =
        [LogInfo BotStarted, LogInfo DefaultClientInitialized] @ ?spawns @ runs' @ tail \<and>
      list_all task_event runs' \<and>
      (\<forall>(i, conf) \<in> set (additional_clients_conf cfg). settled i runs') \<and>
      list_all (\<lambda>e. \<not> task_event e \<and> \<not> spawn_event e) tail"
    by (rule exI2) (rule inner)
  have found: "new_events s (snd (init env cfg bot_args s)) =
      StartSettled Bot None #
        ([LogInfo BotStarted, LogInfo DefaultClientInitialized] @ ?spawns @ runs @ (rest0 @ more)) \<and>
     (None \<noteq> (None :: exn option) \<longrightarrow>
        [LogInfo BotStarted, LogInfo DefaultClientInitialized] @ ?spawns @ runs @ (rest0 @ more) = []) \<and>
     ((None :: exn option) = None \<longrightarrow>
        (\<exists>runs' tail.
           [LogInfo BotStarted, LogInfo DefaultClientInitialized] @ ?spawns @ runs @ (rest0 @ more) =
             [LogInfo BotStarted, LogInfo DefaultClientInitialized] @ ?spawns @ runs' @ tail \<and>
           list_all task_event runs' \<and>
           (\<forall>(i, conf) \<in> set (additional_clients_conf cfg). settled i runs') \<and>
           list_all (\<lambda>e. \<not> task_event e \<and> \<not> spawn_event e) tail))"
  proof (intro conjI impI)
    show "new_events s (snd (init env cfg bot_args s)) =
      StartSettled Bot None #
        ([LogInfo BotStarted, LogInfo DefaultClientInitialized] @ ?spawns @ runs @ (rest0 @ more))"
      by (rule new)
  next
    assume "None \<noteq> (None :: exn option)"
    then show "[LogInfo BotStarted, LogInfo DefaultClientInitialized] @ ?spawns @ runs @ (rest0 @ more) = []"
      by simp
  next
    show "\<exists>runs' tail.
           [LogInfo BotStarted, LogInfo DefaultClientInitialized] @ ?spawns @ runs @ (rest0 @ more) =
             [LogInfo BotStarted, LogInfo DefaultClientInitialized] @ ?spawns @ runs' @ tail \<and>
           list_all task_event runs' \<and>
           (\<forall>(i, conf) \<in> set (additional_clients_conf cfg). settled i runs') \<and>
           list_all (\<lambda>e. \<not> task_event e \<and> \<not> spawn_event e) tail"
      by (rule ex)
  qed
  show ?thesis by (rule exI2) (rule found)
qed


theorem startup_order_witness:
  "new_events fresh
     (snd (init second_fails_first [(0, valid), (1, valid), (2, valid)] (''1'', ''h'', ''t'') fresh)) =
     [StartSettled Bot None, LogInfo BotStarted, LogInfo DefaultClientInitialized,
      CreateTask (StartClient 1), CreateTask (StartClient 2),
      LogInfo (Starting 2), StartSettled (Secondary 2) (Some (Failure ''invalid token'')),
      LogError (FailedToStart 2 (Failure ''invalid token'')),
      LogInfo (Starting 1), StartSettled (Secondary 1) None] \<and>
   (\<exists>runs tail.
      [LogInfo BotStarted, LogInfo DefaultClientInitialized,
       CreateTask (StartClient 1), CreateTask (StartClient 2),
       LogInfo (Starting 2), StartSettled (Secondary 2) (Some (Failure ''invalid token'')),
       LogError (FailedToStart 2 (Failure ''invalid token'')),
       LogInfo (Starting 1), StartSettled (Secondary 1) None] =
      [LogInfo BotStarted, LogInfo DefaultClientInitialized,
       CreateTask (StartClient 1), CreateTask (StartClient 2)] @ runs @ tail \<and>
      list_all task_event runs \<and> settled 1 runs \<and> settled 2 runs)"
proof -
  let ?cfg = "[(0, valid), (1, valid), (2, valid)]"
  let ?run = "init second_fails_first ?cfg (''1'', ''h'', ''t'') fresh"
  have tr: "new_events fresh (snd ?run) =
     [StartSettled Bot None, LogInfo BotStarted, LogInfo DefaultClientInitialized,
      CreateTask (StartClient 1), CreateTask (StartClient 2),
      LogInfo (Starting 2), StartSettled (Secondary 2) (Some (Failure ''invalid token'')),
      LogError (FailedToStart 2 (Failure ''invalid token'')),
      LogInfo (Starting 1), StartSettled (Secondary 1) None]"
    by code_simp
  have add: "additional_clients_conf ?cfg = [(1, valid), (2, valid)]"
    by (simp add: additional_clients_conf_def)
  from startup_order [of fresh second_fails_first ?cfg "(''1'', ''h'', ''t'')"]
  obtain r rest where
    a: "new_events fresh (snd ?run) = StartSettled Bot r # rest" and
    b: "r = None \<longrightarrow>
        (\<exists>runs tail.
           rest = [LogInfo BotStarted, LogInfo DefaultClientInitialized] @
                  map (\<lambda>(i, conf). CreateTask (StartClient i)) (additional_clients_conf ?cfg) @
                  runs @ tail \<and>
           list_all task_event runs \<and>
           (\<forall>(i, conf) \<in> set (additional_clients_conf ?cfg). settled i runs) \<and>
           list_all (\<lambda>e. \<not> task_event e \<and> \<not> spawn_event e) tail)"
    by (elim exE conjE)
  from a tr have r: "r = None" and rest: "rest =
     [LogInfo BotStarted, LogInfo DefaultClientInitialized,
      CreateTask (StartClient 1), CreateTask (StartClient 2),
      LogInfo (Starting 2), StartSettled (Secondary 2) (Some (Failure ''invalid token'')),
      LogError (FailedToStart 2 (Failure ''invalid token'')),
      LogInfo (Starting 1), StartSettled (Secondary 1) None]"
    by simp_all
  from b r obtain runs tail where
    c: "rest = [LogInfo BotStarted, LogInfo DefaultClientInitialized] @
                  map (\<lambda>(i, conf). CreateTask (StartClient i)) (additional_clients_conf ?cfg) @
                  runs @ tail"
      "list_all task_event runs"
      "\<forall>(i, conf) \<in> set (additional_clients_conf ?cfg). settled i runs"
    by (elim impE exE conjE) simp
  from c have "rest = [LogInfo BotStarted, LogInfo DefaultClientInitialized,
       CreateTask (StartClient 1), CreateTask (StartClient 2)] @ runs @ tail \<and>
      list_all task_event runs \<and> settled 1 runs \<and> settled 2 runs"
    unfolding add by simp
  then have "\<exists>runs tail. rest = [LogInfo BotStarted, LogInfo DefaultClientInitialized,
       CreateTask (StartClient 1), CreateTask (StartClient 2)] @ runs @ tail \<and>
      list_all task_event runs \<and> settled 1 runs \<and> settled 2 runs"
    by (rule exI2)
  with tr show ?thesis unfolding rest by (rule conjI)
qed

end
